theory Spec2Isabelle
  imports Main
begin

section \<open>OpenVault memory retrieval: data model\<close>

text \<open>
  The records below follow the objects read by \<^verbatim>\<open>src/retrieval/retrieve.js\<close>.
  A field the source reads through optional chaining (\<^verbatim>\<open>m.witnesses?.some\<close>), or tests
  for presence before use (\<^verbatim>\<open>!m.message_ids\<close>), is an \<open>option\<close>: \<open>None\<close> is the
  absent (undefined or null) field. Names are strings, memory ids are strings, message
  ids are chat indices. \<open>is_secret\<close> is the truth value that \<^verbatim>\<open>!m.is_secret\<close> negates.
  A string of the program is the list of the bytes of its UTF-8 form, so two strings
  are equal exactly when their byte lists are.
\<close>

record memory =
  mem_id :: string
  summary :: "string option"
  witnesses :: "string list option"
  characters_involved :: "string list option"
  is_secret :: bool
  message_ids :: "nat list option"
  batch_id :: "string option"

record char_state =
  known_events :: "string list option"
  current_emotion :: "string option"
  emotion_from_messages :: "(nat \<times> nat) option"

text \<open>
  The object returned by \<^verbatim>\<open>getOpenVaultData()\<close>: \<^verbatim>\<open>data[MEMORIES_KEY]\<close>,
  \<^verbatim>\<open>data[CHARACTERS_KEY]\<close> (an object keyed by character name) and
  \<^verbatim>\<open>data[LAST_BATCH_KEY]\<close>.
\<close>

record ov_data =
  memories :: "memory list option"
  characters :: "(string \<rightharpoonup> char_state) option"
  last_batch_id :: "string option"

section \<open>Visibility filter\<close>

text \<open>
  \<^verbatim>\<open>String.prototype.toLowerCase\<close> is a builtin of the host language and no part of
  the source. The filter takes it as the parameter \<open>lower\<close>, and the entry points take it
  from the host (field \<open>toLowerCase\<close> of \<open>env\<close>), so what is proved of the filter holds
  for the builtin with all its Unicode tables. What is known of the builtin without
  those tables: on a string of ASCII characters only (\<open>is_ascii\<close>) it is
  \<open>ascii_lower\<close>, which moves each of the letters A to Z to its lower-case letter and
  leaves every other character.
\<close>

definition case_pairs :: "(char \<times> char) list" where
  "case_pairs = zip ''ABCDEFGHIJKLMNOPQRSTUVWXYZ'' ''abcdefghijklmnopqrstuvwxyz''"

definition lower_char :: "char \<Rightarrow> char" where
  "lower_char c = (case map_of case_pairs c of None \<Rightarrow> c | Some l \<Rightarrow> l)"

definition ascii_lower :: "string \<Rightarrow> string" where
  "ascii_lower s = map lower_char s"

definition is_ascii :: "string \<Rightarrow> bool" where
  "is_ascii s = list_all (\<lambda>c. \<not> digit7 c) s"

text \<open>
  Following the specification's words, not the source: two names match case-insensitively
  when they have the same length and, position by position, the same character or the
  upper-case and lower-case forms of one letter.
\<close>

definition same_letter :: "char \<Rightarrow> char \<Rightarrow> bool" where
  "same_letter a b = (a = b \<or> (a, b) \<in> set case_pairs \<or> (b, a) \<in> set case_pairs)"

definition eq_ignore_case :: "string \<Rightarrow> string \<Rightarrow> bool" where
  "eq_ignore_case a b = list_all2 same_letter a b"

text \<open>
  The loop that collects \<^verbatim>\<open>knownEventIds\<close> (lines 74 to 82 and 210 to 218, the same
  text in both entry points). One turn of the outer loop looks the POV name up as a key of
  \<^verbatim>\<open>data[CHARACTERS_KEY]\<close> and, when the state has \<^verbatim>\<open>known_events\<close>, adds each id
  to the set.
\<close>

definition add_known_events ::
    "(string \<rightharpoonup> char_state) option \<Rightarrow> string \<Rightarrow> string set \<Rightarrow> string set" where
  "add_known_events chars charName acc =
     (case (case chars of None \<Rightarrow> None | Some cm \<Rightarrow> cm charName) of
        None \<Rightarrow> acc
      | Some charState \<Rightarrow>
          (case known_events charState of
             None \<Rightarrow> acc
           | Some evs \<Rightarrow> fold insert evs acc))"

definition knownEventIds :: "(string \<rightharpoonup> char_state) option \<Rightarrow> string list \<Rightarrow> string set" where
  "knownEventIds chars povNames = fold (add_known_events chars) povNames {}"

text \<open>
  The callback of \<^verbatim>\<open>memories.filter\<close> (lines 86 to 94 and 222 to 227, the same three
  tests in the same order). \<^verbatim>\<open>xs?.some(p)\<close> on an absent field is undefined, which the
  \<^verbatim>\<open>if\<close> reads as false; \<^verbatim>\<open>includes\<close> is list membership; \<open>lower\<close> is
  \<^verbatim>\<open>toLowerCase\<close>, and \<open>povCharactersLower\<close> the list
  \<^verbatim>\<open>povCharacters.map(c => c.toLowerCase())\<close>.
\<close>

definition some_opt :: "('a \<Rightarrow> bool) \<Rightarrow> 'a list option \<Rightarrow> bool" where
  "some_opt p xs = (case xs of None \<Rightarrow> False | Some ys \<Rightarrow> list_ex p ys)"

definition isAccessible ::
    "(string \<Rightarrow> string) \<Rightarrow> string list \<Rightarrow> string set \<Rightarrow> memory \<Rightarrow> bool" where
  "isAccessible lower povCharactersLower known m =
     (if some_opt (\<lambda>w. lower w \<in> set povCharactersLower) (witnesses m) then True
      else if \<not> is_secret m \<and>
              some_opt (\<lambda>c. lower c \<in> set povCharactersLower) (characters_involved m)
        then True
      else if mem_id m \<in> known then True
      else False)"

definition accessibleMemories ::
    "(string \<Rightarrow> string) \<Rightarrow> (string \<rightharpoonup> char_state) option \<Rightarrow> string list \<Rightarrow> memory list
      \<Rightarrow> memory list" where
  "accessibleMemories lower chars povNames mems =
     filter (isAccessible lower (map lower povNames) (knownEventIds chars povNames)) mems"

section \<open>Exclusion passes of the automatic update\<close>

record message =
  is_system :: bool
  mes :: string

text \<open>
  \<^verbatim>\<open>new Set(context.chat.map((m, idx) => idx).slice(-10))\<close>: the indices of the chat,
  of which \<^verbatim>\<open>slice(-10)\<close> keeps the last ten (all of them when there are fewer).
\<close>

definition recentMessageIds :: "message list \<Rightarrow> nat set" where
  "recentMessageIds c =
     (let idxs = [0..<length c] in set (drop (length idxs - 10) idxs))"

text \<open>The callback of the recency pass (lines 236 to 244).\<close>

definition isNonRecent :: "nat set \<Rightarrow> memory \<Rightarrow> bool" where
  "isNonRecent recent m =
     (case message_ids m of
        None \<Rightarrow> True
      | Some ids \<Rightarrow>
          if ids = [] then True
          else if list_all (\<lambda>i. i \<in> recent) ids then False
          else True)"

definition nonRecentMemories :: "message list \<Rightarrow> memory list \<Rightarrow> memory list" where
  "nonRecentMemories c accessible = filter (isNonRecent (recentMessageIds c)) accessible"

text \<open>
  The callback of the batch pass (lines 248 to 254). \<^verbatim>\<open>lastBatchId && ...\<close> reads
  \<^verbatim>\<open>lastBatchId\<close> as a truth value: an absent value and the empty string are false.
\<close>

definition truthy :: "string option \<Rightarrow> bool" where
  "truthy v = (case v of None \<Rightarrow> False | Some s \<Rightarrow> s \<noteq> [])"

definition isNonBatch :: "string option \<Rightarrow> memory \<Rightarrow> bool" where
  "isNonBatch lastBatchId m =
     (if truthy lastBatchId \<and> batch_id m = lastBatchId then False else True)"

definition nonBatchMemories :: "string option \<Rightarrow> memory list \<Rightarrow> memory list" where
  "nonBatchMemories lastBatchId nonRecent = filter (isNonBatch lastBatchId) nonRecent"

section \<open>The host: settings, session, collaborators\<close>

record settings =
  enabled :: bool
  automaticMode :: bool
  maxMemoriesPerRetrieval :: nat
  tokenBudget :: nat

text \<open>
  A value that is a name, \<^verbatim>\<open>undefined\<close> or \<^verbatim>\<open>null\<close>: \<^verbatim>\<open>context.name2\<close>, and
  \<^verbatim>\<open>povCharacters[0]\<close>, which is \<^verbatim>\<open>undefined\<close> for an empty array.
\<close>

datatype js_name = Undefined | Null | Name string

record session =
  chat :: "message list option"
  name1 :: js_name
  name2 :: js_name

record pov_context =
  povCharacters :: "string list"
  isGroupChat :: bool

record emotional_info =
  emotion :: string
  fromMessages :: "(nat \<times> nat) option"

record retrieval =
  result_memories :: "memory list"
  result_context :: string

datatype status = Retrieving | Ready | Error

type_synonym exn = string

text \<open>
  What the imported functions answer during one call. \<^verbatim>\<open>extension_settings[extensionName]\<close>,
  \<^verbatim>\<open>getContext()\<close> and \<^verbatim>\<open>getOpenVaultData()\<close> are the values they return
  (\<open>None\<close> for a store that is not available). Every other collaborator either returns
  (\<open>Inr\<close>) or throws (\<open>Inl\<close>, for the awaited selector a rejected promise). The
  relationship context is opaque text. \<open>toLowerCase\<close> is the builtin of the host
  language. \<^verbatim>\<open>log\<close>, \<^verbatim>\<open>console.error\<close> and \<^verbatim>\<open>setStatus\<close> are taken to return
  always; logging leaves no trace in the model.
\<close>

record env =
  toLowerCase :: "string \<Rightarrow> string"
  extension_settings :: settings
  getContext :: session
  getOpenVaultData :: "ov_data option"
  getActiveCharacters :: "exn + string list"
  getPOVContext :: "exn + pov_context"
  selectRelevantMemories ::
    "memory list \<Rightarrow> string \<Rightarrow> js_name \<Rightarrow> string list \<Rightarrow> nat \<Rightarrow> exn + memory list option"
  getRelationshipContext :: "ov_data \<Rightarrow> js_name \<Rightarrow> string list \<Rightarrow> exn + string"
  formatContextForInjection ::
    "memory list \<Rightarrow> string \<Rightarrow> emotional_info \<Rightarrow> js_name \<Rightarrow> nat \<Rightarrow> exn + string"
  safeSetExtensionPrompt :: "string \<Rightarrow> exn + bool"
  showToast :: "string \<Rightarrow> nat \<Rightarrow> exn + unit"

text \<open>
  What a call does to the host, as traces in call order: the texts passed to
  \<^verbatim>\<open>safeSetExtensionPrompt\<close>, the arguments of \<^verbatim>\<open>setStatus\<close>, the toasts (kind, and
  the number of memories the message text is built from) and the candidate lists passed
  to \<^verbatim>\<open>selectRelevantMemories\<close>.
\<close>

record host =
  sink_calls :: "string list"
  status_calls :: "status list"
  toast_calls :: "(string \<times> nat) list"
  selector_calls :: "memory list list"

definition setStatus :: "status \<Rightarrow> host \<Rightarrow> host" where
  "setStatus s h = h\<lparr>status_calls := status_calls h @ [s]\<rparr>"

definition call_safeSetExtensionPrompt :: "env \<Rightarrow> string \<Rightarrow> host \<Rightarrow> (exn + bool) \<times> host" where
  "call_safeSetExtensionPrompt E txt h =
     (safeSetExtensionPrompt E txt, h\<lparr>sink_calls := sink_calls h @ [txt]\<rparr>)"

definition call_showToast :: "env \<Rightarrow> string \<Rightarrow> nat \<Rightarrow> host \<Rightarrow> (exn + unit) \<times> host" where
  "call_showToast E kind n h =
     (showToast E kind n, h\<lparr>toast_calls := toast_calls h @ [(kind, n)]\<rparr>)"

definition call_selectRelevantMemories ::
    "env \<Rightarrow> memory list \<Rightarrow> string \<Rightarrow> js_name \<Rightarrow> string list \<Rightarrow> nat \<Rightarrow> host
      \<Rightarrow> (exn + memory list option) \<times> host" where
  "call_selectRelevantMemories E cands txt primary active n h =
     (selectRelevantMemories E cands txt primary active n,
      h\<lparr>selector_calls := selector_calls h @ [cands]\<rparr>)"

section \<open>injectContext\<close>

definition injectContext :: "env \<Rightarrow> string \<Rightarrow> host \<Rightarrow> (exn + unit) \<times> host" where
  "injectContext E contextText h =
     (if contextText = [] then
        (case call_safeSetExtensionPrompt E [] h of
           (Inl e, h') \<Rightarrow> (Inl e, h')
         | (Inr _, h') \<Rightarrow> (Inr (), h'))
      else
        (case call_safeSetExtensionPrompt E contextText h of
           (Inl e, h') \<Rightarrow> (Inl e, h')
         | (Inr ok, h') \<Rightarrow> (Inr (), h')))"

section \<open>Values both entry points compute\<close>

text \<open>\<^verbatim>\<open>data[MEMORIES_KEY] || []\<close>\<close>

definition memories_of :: "ov_data \<Rightarrow> memory list" where
  "memories_of d = (case memories d of None \<Rightarrow> [] | Some ms \<Rightarrow> ms)"

text \<open>
  \<^verbatim>\<open>isGroupChat ? povCharacters[0] : context.name2\<close>; index 0 of an empty array is
  \<^verbatim>\<open>undefined\<close>, it does not throw.
\<close>

definition primaryCharacter :: "pov_context \<Rightarrow> session \<Rightarrow> js_name" where
  "primaryCharacter pov ctx =
     (if isGroupChat pov
      then (case povCharacters pov of [] \<Rightarrow> Undefined | x # _ \<Rightarrow> Name x)
      else name2 ctx)"

fun join :: "string \<Rightarrow> string list \<Rightarrow> string" where
  "join sep [] = []"
| "join sep [x] = x"
| "join sep (x # y # ys) = x @ sep @ join sep (y # ys)"

text \<open>\<^verbatim>\<open>chat.filter(m => !m.is_system).map(m => m.mes).join('\n')\<close>\<close>

definition recentMessages :: "message list \<Rightarrow> string" where
  "recentMessages c = join [CHR 0x0A] (map mes (filter (\<lambda>m. \<not> is_system m) c))"

text \<open>
  \<^verbatim>\<open>data[CHARACTERS_KEY]?.[primaryCharacter]\<close>: a key that is not a string is read as
  its string form, the property name \<^verbatim>\<open>"undefined"\<close> or \<^verbatim>\<open>"null"\<close>.
\<close>

definition property_key :: "js_name \<Rightarrow> string" where
  "property_key k =
     (case k of Undefined \<Rightarrow> ''undefined'' | Null \<Rightarrow> ''null'' | Name n \<Rightarrow> n)"

definition primaryCharState :: "ov_data \<Rightarrow> js_name \<Rightarrow> char_state option" where
  "primaryCharState d primary =
     (case characters d of
        None \<Rightarrow> None
      | Some cm \<Rightarrow> cm (property_key primary))"

definition emotionalInfo :: "char_state option \<Rightarrow> emotional_info" where
  "emotionalInfo cs =
     \<lparr>emotion =
        (case cs of
           None \<Rightarrow> ''neutral''
         | Some st \<Rightarrow>
             (case current_emotion st of
                None \<Rightarrow> ''neutral''
              | Some e \<Rightarrow> if e = [] then ''neutral'' else e)),
      fromMessages =
        (case cs of None \<Rightarrow> None | Some st \<Rightarrow> emotion_from_messages st)\<rparr>"

definition headerName :: "pov_context \<Rightarrow> js_name \<Rightarrow> js_name" where
  "headerName pov primary = (if isGroupChat pov then primary else Name ''Scene'')"

section \<open>retrieveAndInjectContext (on demand)\<close>

text \<open>Lines 99 to 103: the fallback to all memories when the POV filter keeps none.\<close>

definition memoriesToUse_retrieve :: "memory list \<Rightarrow> memory list \<Rightarrow> memory list" where
  "memoriesToUse_retrieve accessible mems =
     (if accessible = [] \<and> mems \<noteq> [] then mems else accessible)"

text \<open>
  Lines 135 to 164, inside the \<^verbatim>\<open>try\<close>: relationship and emotion lookup, formatting,
  injection, toast, status, result.
\<close>

definition retrieve_format ::
    "env \<Rightarrow> ov_data \<Rightarrow> session \<Rightarrow> pov_context \<Rightarrow> string list \<Rightarrow> memory list \<Rightarrow> host
      \<Rightarrow> (exn + retrieval option) \<times> host" where
  "retrieve_format E d ctx pov active relevant h =
     (let primary = primaryCharacter pov ctx in
      case getRelationshipContext E d primary active of
        Inl e \<Rightarrow> (Inl e, h)
      | Inr relationshipContext \<Rightarrow>
          (case formatContextForInjection E relevant relationshipContext
                  (emotionalInfo (primaryCharState d primary)) (headerName pov primary)
                  (tokenBudget (extension_settings E)) of
             Inl e \<Rightarrow> (Inl e, h)
           | Inr formattedContext \<Rightarrow>
               (if formattedContext \<noteq> [] then
                  (case injectContext E formattedContext h of
                     (Inl e, h1) \<Rightarrow> (Inl e, h1)
                   | (Inr _, h1) \<Rightarrow>
                       (case call_showToast E ''success'' (length relevant) h1 of
                          (Inl e, h2) \<Rightarrow> (Inl e, h2)
                        | (Inr _, h2) \<Rightarrow>
                            (Inr (Some \<lparr>result_memories = relevant,
                                        result_context = formattedContext\<rparr>),
                             setStatus Ready h2)))
                else
                  (Inr (Some \<lparr>result_memories = relevant, result_context = formattedContext\<rparr>),
                   setStatus Ready h))))"

text \<open>
  The \<^verbatim>\<open>try\<close> block, lines 67 to 164. \<open>Inl e\<close> is the exception \<open>e\<close> leaving the
  block, with the host as the calls before it left it.
\<close>

definition retrieve_try ::
    "env \<Rightarrow> session \<Rightarrow> message list \<Rightarrow> ov_data \<Rightarrow> memory list \<Rightarrow> host
      \<Rightarrow> (exn + retrieval option) \<times> host" where
  "retrieve_try E ctx c d mems h =
     (case getActiveCharacters E of
        Inl e \<Rightarrow> (Inl e, h)
      | Inr activeCharacters \<Rightarrow>
          (case getPOVContext E of
             Inl e \<Rightarrow> (Inl e, h)
           | Inr pov \<Rightarrow>
               (let accessible =
                      accessibleMemories (toLowerCase E) (characters d) (povCharacters pov) mems;
                    memoriesToUse = memoriesToUse_retrieve accessible mems
                in if memoriesToUse = [] then (Inr None, setStatus Ready h)
                   else
                     (case call_selectRelevantMemories E memoriesToUse (recentMessages c)
                             (primaryCharacter pov ctx) activeCharacters
                             (maxMemoriesPerRetrieval (extension_settings E)) h of
                        (Inl e, h1) \<Rightarrow> (Inl e, h1)
                      | (Inr None, h1) \<Rightarrow> (Inr None, setStatus Ready h1)
                      | (Inr (Some relevantMemories), h1) \<Rightarrow>
                          if relevantMemories = [] then (Inr None, setStatus Ready h1)
                          else retrieve_format E d ctx pov activeCharacters relevantMemories h1))))"

text \<open>
  The entry point. The result is \<open>Inr None\<close> for \<^verbatim>\<open>null\<close>, \<open>Inr (Some r)\<close> for the
  returned object, and \<open>Inl e\<close> would be an exception reaching the caller (a rejected
  promise).
\<close>

definition retrieveAndInjectContext :: "env \<Rightarrow> host \<Rightarrow> (exn + retrieval option) \<times> host" where
  "retrieveAndInjectContext E h =
     (if \<not> enabled (extension_settings E) then (Inr None, h)
      else
        (case chat (getContext E) of
           None \<Rightarrow> (Inr None, h)
         | Some c \<Rightarrow>
             if c = [] then (Inr None, h)
             else
               (case getOpenVaultData E of
                  None \<Rightarrow> (Inr None, h)
                | Some d \<Rightarrow>
                    (let mems = memories_of d in
                     if mems = [] then (Inr None, h)
                     else
                       (case retrieve_try E (getContext E) c d mems (setStatus Retrieving h) of
                          (Inl e, h') \<Rightarrow> (Inr None, setStatus Error h')
                        | (Inr r, h') \<Rightarrow> (Inr r, h'))))))"

section \<open>updateInjection (automatic mode)\<close>

text \<open>\<^verbatim>\<open>safeSetExtensionPrompt(''); return;\<close>\<close>

definition clearInjection :: "env \<Rightarrow> host \<Rightarrow> (exn + unit) \<times> host" where
  "clearInjection E h =
     (case call_safeSetExtensionPrompt E [] h of
        (Inl e, h') \<Rightarrow> (Inl e, h')
      | (Inr _, h') \<Rightarrow> (Inr (), h'))"

text \<open>Lines 259 to 263: the fallback to all memories when the three filters keep none.\<close>

definition memoriesToUse_update :: "memory list \<Rightarrow> memory list \<Rightarrow> memory list" where
  "memoriesToUse_update nonBatch mems =
     (if nonBatch = [] \<and> mems \<noteq> [] then mems else nonBatch)"

text \<open>Lines 209 to 263 as one value: POV filter, recency pass, batch pass, fallback.\<close>

definition candidates_update ::
    "(string \<Rightarrow> string) \<Rightarrow> ov_data \<Rightarrow> message list \<Rightarrow> pov_context \<Rightarrow> memory list
      \<Rightarrow> memory list" where
  "candidates_update lower d c pov mems =
     (let accessible = accessibleMemories lower (characters d) (povCharacters pov) mems;
          nonRecent = nonRecentMemories c accessible;
          nonBatch = nonBatchMemories (last_batch_id d) nonRecent
      in memoriesToUse_update nonBatch mems)"

text \<open>Lines 274 to 283: the chat text, with the pending user message when there is one.\<close>

definition recentMessages_update :: "message list \<Rightarrow> string \<Rightarrow> string" where
  "recentMessages_update c pendingUserMessage =
     (if pendingUserMessage \<noteq> []
      then recentMessages c @ [CHR 0x0A, CHR 0x0A] @ ''[User is about to say]: ''
             @ pendingUserMessage
      else recentMessages c)"

text \<open>Lines 299 to 322: lookup, formatting, and injection of a non-empty text only.\<close>

definition update_format ::
    "env \<Rightarrow> ov_data \<Rightarrow> session \<Rightarrow> pov_context \<Rightarrow> string list \<Rightarrow> memory list \<Rightarrow> host
      \<Rightarrow> (exn + unit) \<times> host" where
  "update_format E d ctx pov active relevant h =
     (let primary = primaryCharacter pov ctx in
      case getRelationshipContext E d primary active of
        Inl e \<Rightarrow> (Inl e, h)
      | Inr relationshipContext \<Rightarrow>
          (case formatContextForInjection E relevant relationshipContext
                  (emotionalInfo (primaryCharState d primary)) (headerName pov primary)
                  (tokenBudget (extension_settings E)) of
             Inl e \<Rightarrow> (Inl e, h)
           | Inr formattedContext \<Rightarrow>
               (if formattedContext \<noteq> [] then injectContext E formattedContext h
                else (Inr (), h))))"

text \<open>Lines 204 to 322, after the four guards. There is no \<^verbatim>\<open>try\<close> here.\<close>

definition update_body ::
    "env \<Rightarrow> string \<Rightarrow> session \<Rightarrow> message list \<Rightarrow> ov_data \<Rightarrow> memory list \<Rightarrow> host
      \<Rightarrow> (exn + unit) \<times> host" where
  "update_body E pendingUserMessage ctx c d mems h =
     (case getActiveCharacters E of
        Inl e \<Rightarrow> (Inl e, h)
      | Inr activeCharacters \<Rightarrow>
          (case getPOVContext E of
             Inl e \<Rightarrow> (Inl e, h)
           | Inr pov \<Rightarrow>
               (let memoriesToUse = candidates_update (toLowerCase E) d c pov mems
                in if memoriesToUse = [] then clearInjection E h
                   else
                     (case call_selectRelevantMemories E memoriesToUse
                             (recentMessages_update c pendingUserMessage)
                             (primaryCharacter pov ctx) activeCharacters
                             (maxMemoriesPerRetrieval (extension_settings E)) h of
                        (Inl e, h1) \<Rightarrow> (Inl e, h1)
                      | (Inr None, h1) \<Rightarrow> clearInjection E h1
                      | (Inr (Some relevantMemories), h1) \<Rightarrow>
                          if relevantMemories = [] then clearInjection E h1
                          else update_format E d ctx pov activeCharacters relevantMemories h1))))"

text \<open>
  The entry point. \<open>Inr ()\<close> is a normal return, \<open>Inl e\<close> an exception reaching the
  caller (a rejected promise).
\<close>

definition updateInjection :: "env \<Rightarrow> string \<Rightarrow> host \<Rightarrow> (exn + unit) \<times> host" where
  "updateInjection E pendingUserMessage h =
     (if \<not> enabled (extension_settings E) \<or> \<not> automaticMode (extension_settings E)
      then clearInjection E h
      else
        (case chat (getContext E) of
           None \<Rightarrow> clearInjection E h
         | Some c \<Rightarrow>
             if c = [] then clearInjection E h
             else
               (case getOpenVaultData E of
                  None \<Rightarrow> clearInjection E h
                | Some d \<Rightarrow>
                    (let mems = memories_of d in
                     if mems = [] then clearInjection E h
                     else update_body E pendingUserMessage (getContext E) c d mems h))))"

section \<open>A concrete session\<close>

text \<open>
  Three memories and one character state: \<open>mem_witnessed\<close> was seen by \<^verbatim>\<open>alice\<close>
  (lower case) and comes from message 0, \<open>mem_secret\<close> is secret, seen by Bob alone and
  involves Alice, \<open>mem_known\<close> is secret with no witness and is listed in
  \<open>alice_state\<close>.
\<close>

definition mem_witnessed :: memory where
  "mem_witnessed =
     \<lparr>mem_id = ''e1'', summary = Some ''Alice found the key'',
      witnesses = Some [''alice''], characters_involved = Some [''alice''],
      is_secret = False, message_ids = Some [0], batch_id = Some ''b1''\<rparr>"

definition mem_secret :: memory where
  "mem_secret =
     \<lparr>mem_id = ''e2'', summary = Some ''Bob hid the letter from Alice'',
      witnesses = Some [''Bob''], characters_involved = Some [''Alice'', ''Bob''],
      is_secret = True, message_ids = None, batch_id = Some ''b1''\<rparr>"

definition mem_known :: memory where
  "mem_known =
     \<lparr>mem_id = ''e3'', summary = None, witnesses = None, characters_involved = None,
      is_secret = True, message_ids = None, batch_id = None\<rparr>"

definition alice_state :: char_state where
  "alice_state =
     \<lparr>known_events = Some [''e3''], current_emotion = None, emotion_from_messages = None\<rparr>"

definition store_A :: ov_data where
  "store_A =
     \<lparr>memories = Some [mem_witnessed, mem_secret, mem_known],
      characters = Some [''Alice'' \<mapsto> alice_state],
      last_batch_id = None\<rparr>"

definition chat_A :: "message list" where
  "chat_A = [\<lparr>is_system = False, mes = ''Where is the key?''\<rparr>]"

definition pov_A :: pov_context where
  "pov_A = \<lparr>povCharacters = [''Alice''], isGroupChat = False\<rparr>"

text \<open>
  A host in which every collaborator returns: the selector keeps the first
  \<^verbatim>\<open>maxMemoriesPerRetrieval\<close> candidates, the formatter answers a fixed text, the sink
  accepts. Every name of the session is made of ASCII characters, on which the builtin
  \<^verbatim>\<open>toLowerCase\<close> is \<open>ascii_lower\<close>.
\<close>

definition env_A :: env where
  "env_A =
     \<lparr>toLowerCase = ascii_lower,
      extension_settings =
        \<lparr>enabled = True, automaticMode = True, maxMemoriesPerRetrieval = 5, tokenBudget = 1000\<rparr>,
      getContext = \<lparr>chat = Some chat_A, name1 = Name ''User'', name2 = Name ''Alice''\<rparr>,
      getOpenVaultData = Some store_A,
      getActiveCharacters = Inr [''Alice'', ''Bob''],
      getPOVContext = Inr pov_A,
      selectRelevantMemories = (\<lambda>cands txt primary active n. Inr (Some (take n cands))),
      getRelationshipContext = (\<lambda>d primary active. Inr []),
      formatContextForInjection = (\<lambda>rel rc ei hn budget. Inr ''[Scene memories]''),
      safeSetExtensionPrompt = (\<lambda>txt. Inr True),
      showToast = (\<lambda>kind n. Inr ())\<rparr>"

text \<open>A host state in which an earlier call has injected a context.\<close>

definition host_A :: host where
  "host_A =
     \<lparr>sink_calls = [''[Scene memories] earlier''], status_calls = [], toast_calls = [],
      selector_calls = []\<rparr>"

text \<open>
  Variants of the session. In \<open>env_recent\<close> the store holds the first two memories only:
  the one Alice may see comes from the last ten messages. In \<open>env_hidden\<close> it holds the
  secret one only, which Alice may not see.
\<close>

definition store_recent :: ov_data where
  "store_recent = store_A\<lparr>memories := Some [mem_witnessed, mem_secret]\<rparr>"

definition env_recent :: env where
  "env_recent = env_A\<lparr>getOpenVaultData := Some store_recent\<rparr>"

definition store_hidden :: ov_data where
  "store_hidden = store_A\<lparr>memories := Some [mem_secret]\<rparr>"

definition env_hidden :: env where
  "env_hidden = env_A\<lparr>getOpenVaultData := Some store_hidden\<rparr>"

definition env_disabled :: env where
  "env_disabled = env_A\<lparr>extension_settings := (extension_settings env_A)\<lparr>enabled := False\<rparr>\<rparr>"

definition env_select_none :: env where
  "env_select_none = env_A\<lparr>selectRelevantMemories := (\<lambda>cands txt primary active n. Inr (Some []))\<rparr>"

definition env_select_throws :: env where
  "env_select_throws =
     env_A\<lparr>selectRelevantMemories := (\<lambda>cands txt primary active n. Inl ''selector failed'')\<rparr>"

definition env_format_empty :: env where
  "env_format_empty = env_A\<lparr>formatContextForInjection := (\<lambda>rel rc ei hn budget. Inr [])\<rparr>"

definition env_format_throws :: env where
  "env_format_throws =
     env_A\<lparr>formatContextForInjection := (\<lambda>rel rc ei hn budget. Inl ''formatter failed'')\<rparr>"

definition env_sink_throws :: env where
  "env_sink_throws = env_A\<lparr>safeSetExtensionPrompt := (\<lambda>txt. Inl ''sink failed'')\<rparr>"

section \<open>Case folding on ASCII names\<close>

lemma map_of_case_pairs: "map_of case_pairs a = Some x \<longleftrightarrow> (a, x) \<in> set case_pairs"
proof -
  have "distinct (map fst case_pairs)"
    by (simp add: case_pairs_def)
  then show ?thesis by (rule map_of_eq_Some_iff)
qed

lemma uppers_not_lowers: "fst ` set case_pairs \<inter> snd ` set case_pairs = {}"
  by (simp add: case_pairs_def)

lemma case_pairs_inj:
  assumes "(a, x) \<in> set case_pairs" and "(b, x) \<in> set case_pairs"
  shows "a = b"
proof -
  have "distinct (map snd case_pairs)"
    by (simp add: case_pairs_def)
  then have "distinct (map fst (map (\<lambda>(u, l). (l, u)) case_pairs))"
    by (simp add: comp_def case_prod_unfold)
  moreover have "(x, a) \<in> set (map (\<lambda>(u, l). (l, u)) case_pairs)"
      and "(x, b) \<in> set (map (\<lambda>(u, l). (l, u)) case_pairs)"
    using assms by force+
  ultimately show ?thesis
    by (metis map_of_is_SomeI option.inject)
qed

lemma lower_char_eq_iff: "lower_char a = lower_char b \<longleftrightarrow> same_letter a b"
proof (cases "map_of case_pairs a")
  case None
  then have na: "\<And>y. (a, y) \<notin> set case_pairs"
    by (simp add: map_of_case_pairs [symmetric])
  show ?thesis
  proof (cases "map_of case_pairs b")
    case None': None
    then have "\<And>y. (b, y) \<notin> set case_pairs"
      by (simp add: map_of_case_pairs [symmetric])
    with na None None' show ?thesis
      by (auto simp: lower_char_def same_letter_def)
  next
    case (Some y)
    then have "(b, y) \<in> set case_pairs"
      by (simp add: map_of_case_pairs)
    with na None Some show ?thesis
      using map_of_case_pairs [of b a]
      by (auto simp: lower_char_def same_letter_def)
  qed
next
  case (Some x)
  then have ax: "(a, x) \<in> set case_pairs"
    by (simp add: map_of_case_pairs)
  show ?thesis
  proof (cases "map_of case_pairs b")
    case None
    then have nb: "\<And>y. (b, y) \<notin> set case_pairs"
      by (simp add: map_of_case_pairs [symmetric])
    with ax None Some show ?thesis
      using map_of_case_pairs [of a b]
      by (auto simp: lower_char_def same_letter_def)
  next
    case Some': (Some y)
    then have by': "(b, y) \<in> set case_pairs"
      by (simp add: map_of_case_pairs)
    have nab: "(a, b) \<notin> set case_pairs" "(b, a) \<notin> set case_pairs"
      using ax by' uppers_not_lowers by (force simp: disjoint_iff)+
    have "lower_char a = lower_char b \<longleftrightarrow> x = y"
      using Some Some' by (simp add: lower_char_def)
    also have "\<dots> \<longleftrightarrow> a = b"
      using ax by' case_pairs_inj [of a x b] Some Some' by auto
    finally show ?thesis
      using nab by (simp add: same_letter_def)
  qed
qed

lemma map_eq_iff_list_all2: "map f a = map f b \<longleftrightarrow> list_all2 (\<lambda>x y. f x = f y) a b"
proof (induction a arbitrary: b)
  case Nil
  show ?case by simp
next
  case (Cons x xs)
  show ?case by (cases b) (simp_all add: Cons.IH)
qed

lemma ascii_lower_eq_iff: "ascii_lower a = ascii_lower b \<longleftrightarrow> eq_ignore_case a b"
  unfolding ascii_lower_def eq_ignore_case_def
  by (simp add: map_eq_iff_list_all2 lower_char_eq_iff)

section \<open>Visibility\<close>

lemma fold_insert_set: "fold insert xs acc = set xs \<union> acc"
  by (induction xs arbitrary: acc) auto

lemma add_known_events_eq:
  "add_known_events chars p acc =
     acc \<union> {e. \<exists>cm st evs. chars = Some cm \<and> cm p = Some st \<and> known_events st = Some evs \<and> e \<in> set evs}"
  by (auto simp: add_known_events_def fold_insert_set split: option.splits)

lemma fold_add_known_events:
  "fold (add_known_events chars) pov acc =
     acc \<union> {e. \<exists>p\<in>set pov. \<exists>cm st evs.
                 chars = Some cm \<and> cm p = Some st \<and> known_events st = Some evs \<and> e \<in> set evs}"
proof (induction pov arbitrary: acc)
  case Nil
  show ?case by simp
next
  case (Cons q qs)
  show ?case
    unfolding fold_simps Cons.IH add_known_events_eq [of chars q acc]
    by auto
qed

lemma knownEventIds_iff:
  "e \<in> knownEventIds chars pov \<longleftrightarrow>
     (\<exists>p\<in>set pov. \<exists>cm st evs.
        chars = Some cm \<and> cm p = Some st \<and> known_events st = Some evs \<and> e \<in> set evs)"
  by (simp add: knownEventIds_def fold_add_known_events)

lemma some_opt_lower_iff:
  "some_opt (\<lambda>w. lower w \<in> set (map lower pov)) xs \<longleftrightarrow>
     (\<exists>p\<in>set pov. \<exists>ws w. xs = Some ws \<and> w \<in> set ws \<and> lower w = lower p)"
  by (cases xs) (auto simp: some_opt_def list_ex_iff)

lemma isAccessible_iff:
  "isAccessible lower (map lower pov) (knownEventIds chars pov) m \<longleftrightarrow>
     (\<exists>p\<in>set pov. \<exists>ws w. witnesses m = Some ws \<and> w \<in> set ws \<and> lower w = lower p)
   \<or> (\<not> is_secret m \<and>
       (\<exists>p\<in>set pov. \<exists>cs c.
          characters_involved m = Some cs \<and> c \<in> set cs \<and> lower c = lower p))
   \<or> (\<exists>p\<in>set pov. \<exists>cm st evs.
         chars = Some cm \<and> cm p = Some st \<and> known_events st = Some evs \<and> mem_id m \<in> set evs)"
  unfolding isAccessible_def some_opt_lower_iff knownEventIds_iff by auto

lemma accessibleMemories_iff:
  "m \<in> set (accessibleMemories lower chars pov mems) \<longleftrightarrow>
     m \<in> set mems \<and>
     ((\<exists>p\<in>set pov. \<exists>ws w.
         witnesses m = Some ws \<and> w \<in> set ws \<and> lower w = lower p)
      \<or> (\<not> is_secret m \<and>
          (\<exists>p\<in>set pov. \<exists>cs c.
             characters_involved m = Some cs \<and> c \<in> set cs \<and> lower c = lower p))
      \<or> (\<exists>p\<in>set pov. \<exists>cm st evs.
            chars = Some cm \<and> cm p = Some st \<and> known_events st = Some evs \<and>
            mem_id m \<in> set evs))"
  unfolding accessibleMemories_def set_filter mem_Collect_eq isAccessible_iff by (rule refl)

lemmas session_defs =
  mem_witnessed_def mem_secret_def mem_known_def alice_state_def store_A_def chat_A_def
  pov_A_def env_A_def host_A_def

lemmas filter_defs =
  accessibleMemories_def isAccessible_def some_opt_def knownEventIds_def add_known_events_def
  ascii_lower_def lower_char_def case_pairs_def nonRecentMemories_def nonBatchMemories_def
  isNonRecent_def isNonBatch_def recentMessageIds_def truthy_def

text \<open>
  C1. The POV filter of both entry points keeps a memory \<open>m\<close> of the list exactly when
  (1) a witness of \<open>m\<close> matches a POV name, or (2) \<open>m\<close> is not secret and an involved
  character matches a POV name, or (3) the id of \<open>m\<close> is among the \<open>known_events\<close> of a
  POV character's state. Each of the three is enough on its own, being a disjunct. Two
  names match when \<^verbatim>\<open>toLowerCase\<close> gives the same string for both; this holds for
  whatever the builtin computes (first part). On names of ASCII characters, where the
  builtin is \<open>ascii_lower\<close>, matching is \<open>eq_ignore_case\<close>: the same letters up to
  their case (second part).
\<close>

theorem visibility_filter_iff:
  "(m \<in> set (accessibleMemories lower chars pov mems) \<longleftrightarrow>
      m \<in> set mems \<and>
      ((\<exists>p\<in>set pov. \<exists>ws w.
          witnesses m = Some ws \<and> w \<in> set ws \<and> lower w = lower p)
       \<or> (\<not> is_secret m \<and>
           (\<exists>p\<in>set pov. \<exists>cs c.
              characters_involved m = Some cs \<and> c \<in> set cs \<and> lower c = lower p))
       \<or> (\<exists>p\<in>set pov. \<exists>cm st evs.
             chars = Some cm \<and> cm p = Some st \<and> known_events st = Some evs \<and>
             mem_id m \<in> set evs)))
   \<and> ((\<forall>s. is_ascii s \<longrightarrow> lower s = ascii_lower s) \<and>
       (\<forall>p\<in>set pov. is_ascii p) \<and>
       (\<forall>ws. witnesses m = Some ws \<longrightarrow> (\<forall>w\<in>set ws. is_ascii w)) \<and>
       (\<forall>cs. characters_involved m = Some cs \<longrightarrow> (\<forall>c\<in>set cs. is_ascii c))
       \<longrightarrow>
       (m \<in> set (accessibleMemories lower chars pov mems) \<longleftrightarrow>
          m \<in> set mems \<and>
          ((\<exists>p\<in>set pov. \<exists>ws w.
              witnesses m = Some ws \<and> w \<in> set ws \<and> eq_ignore_case w p)
           \<or> (\<not> is_secret m \<and>
               (\<exists>p\<in>set pov. \<exists>cs c.
                  characters_involved m = Some cs \<and> c \<in> set cs \<and> eq_ignore_case c p))
           \<or> (\<exists>p\<in>set pov. \<exists>cm st evs.
                 chars = Some cm \<and> cm p = Some st \<and> known_events st = Some evs \<and>
                 mem_id m \<in> set evs))))"
proof (intro conjI impI)
  show "m \<in> set (accessibleMemories lower chars pov mems) \<longleftrightarrow>
      m \<in> set mems \<and>
      ((\<exists>p\<in>set pov. \<exists>ws w.
          witnesses m = Some ws \<and> w \<in> set ws \<and> lower w = lower p)
       \<or> (\<not> is_secret m \<and>
           (\<exists>p\<in>set pov. \<exists>cs c.
              characters_involved m = Some cs \<and> c \<in> set cs \<and> lower c = lower p))
       \<or> (\<exists>p\<in>set pov. \<exists>cm st evs.
             chars = Some cm \<and> cm p = Some st \<and> known_events st = Some evs \<and>
             mem_id m \<in> set evs))"
    by (rule accessibleMemories_iff)
next
  assume a: "(\<forall>s. is_ascii s \<longrightarrow> lower s = ascii_lower s) \<and>
       (\<forall>p\<in>set pov. is_ascii p) \<and>
       (\<forall>ws. witnesses m = Some ws \<longrightarrow> (\<forall>w\<in>set ws. is_ascii w)) \<and>
       (\<forall>cs. characters_involved m = Some cs \<longrightarrow> (\<forall>c\<in>set cs. is_ascii c))"
  have w: "lower w = lower p \<longleftrightarrow> eq_ignore_case w p"
    if "p \<in> set pov" "witnesses m = Some ws" "w \<in> set ws" for p ws w
    using a that by (simp add: ascii_lower_eq_iff [symmetric])
  have c: "lower c = lower p \<longleftrightarrow> eq_ignore_case c p"
    if "p \<in> set pov" "characters_involved m = Some cs" "c \<in> set cs" for p cs c
    using a that by (simp add: ascii_lower_eq_iff [symmetric])
  show "m \<in> set (accessibleMemories lower chars pov mems) \<longleftrightarrow>
          m \<in> set mems \<and>
          ((\<exists>p\<in>set pov. \<exists>ws w.
              witnesses m = Some ws \<and> w \<in> set ws \<and> eq_ignore_case w p)
           \<or> (\<not> is_secret m \<and>
               (\<exists>p\<in>set pov. \<exists>cs c.
                  characters_involved m = Some cs \<and> c \<in> set cs \<and> eq_ignore_case c p))
           \<or> (\<exists>p\<in>set pov. \<exists>cm st evs.
                 chars = Some cm \<and> cm p = Some st \<and> known_events st = Some evs \<and>
                 mem_id m \<in> set evs))"
    unfolding accessibleMemories_iff using w c by blast
qed

text \<open>
  The POV name \<^verbatim>\<open>Alice\<close> reaches the memory witnessed by \<^verbatim>\<open>alice\<close> through the first
  disjunct alone, and the secret memory with no witness through the third alone; the
  name \<^verbatim>\<open>Carol\<close> reaches neither.
\<close>

theorem visibility_filter_iff_witness:
  "eq_ignore_case ''alice'' ''Alice''
   \<and> mem_witnessed \<in> set (accessibleMemories ascii_lower None [''Alice'']
                            [mem_witnessed, mem_secret, mem_known])
   \<and> mem_known \<in> set (accessibleMemories ascii_lower (Some [''Alice'' \<mapsto> alice_state]) [''Alice'']
                        [mem_witnessed, mem_secret, mem_known])
   \<and> mem_known \<notin> set (accessibleMemories ascii_lower None [''Alice'']
                        [mem_witnessed, mem_secret, mem_known])
   \<and> mem_witnessed \<notin> set (accessibleMemories ascii_lower None [''Carol'']
                            [mem_witnessed, mem_secret, mem_known])"
proof -
  have e: "eq_ignore_case ''alice'' ''Alice''"
    by (simp add: eq_ignore_case_def same_letter_def case_pairs_def)
  have n: "\<not> eq_ignore_case ''alice'' ''Carol''"
    by (simp add: eq_ignore_case_def same_letter_def case_pairs_def)
  have h: "(\<forall>s. is_ascii s \<longrightarrow> ascii_lower s = ascii_lower s) \<and>
       (\<forall>p\<in>set [q]. is_ascii p) \<and>
       (\<forall>ws. witnesses mem_witnessed = Some ws \<longrightarrow> (\<forall>w\<in>set ws. is_ascii w)) \<and>
       (\<forall>cs. characters_involved mem_witnessed = Some cs \<longrightarrow> (\<forall>c\<in>set cs. is_ascii c))"
    if "is_ascii q" for q
    using that by (simp add: mem_witnessed_def is_ascii_def)
  have 1: "mem_witnessed \<in> set (accessibleMemories ascii_lower None [''Alice'']
                                  [mem_witnessed, mem_secret, mem_known])"
    using mp [OF conjunct2 [OF visibility_filter_iff
            [of mem_witnessed ascii_lower None "[''Alice'']" "[mem_witnessed, mem_secret, mem_known]"]]
          h [of "''Alice''"]] e
    by (simp add: mem_witnessed_def is_ascii_def)
  have 4: "mem_witnessed \<notin> set (accessibleMemories ascii_lower None [''Carol'']
                                  [mem_witnessed, mem_secret, mem_known])"
    using mp [OF conjunct2 [OF visibility_filter_iff
            [of mem_witnessed ascii_lower None "[''Carol'']" "[mem_witnessed, mem_secret, mem_known]"]]
          h [of "''Carol''"]] n
    by (simp add: mem_witnessed_def is_ascii_def)
  have 2: "mem_known \<in> set (accessibleMemories ascii_lower (Some [''Alice'' \<mapsto> alice_state])
                              [''Alice''] [mem_witnessed, mem_secret, mem_known])"
    using conjunct1 [OF visibility_filter_iff
        [of mem_known ascii_lower "Some [''Alice'' \<mapsto> alice_state]" "[''Alice'']"
          "[mem_witnessed, mem_secret, mem_known]"]]
    by (simp add: mem_known_def alice_state_def)
  have 3: "mem_known \<notin> set (accessibleMemories ascii_lower None [''Alice'']
                              [mem_witnessed, mem_secret, mem_known])"
    using conjunct1 [OF visibility_filter_iff
        [of mem_known ascii_lower None "[''Alice'']" "[mem_witnessed, mem_secret, mem_known]"]]
    by (simp add: mem_known_def)
  from e 1 2 3 4 show ?thesis by blast
qed

text \<open>
  C2. A secret memory whose id is in the \<open>known_events\<close> of no POV character and none of
  whose witnesses matches a POV name (\<^verbatim>\<open>toLowerCase\<close> gives different strings for the
  two) is rejected by the POV filter, whatever \<open>characters_involved\<close> holds.
\<close>

theorem secret_not_visible_by_involvement:
  assumes "is_secret m"
    and "\<forall>p\<in>set pov. \<forall>cm st evs.
           chars = Some cm \<and> cm p = Some st \<and> known_events st = Some evs \<longrightarrow> mem_id m \<notin> set evs"
    and "\<forall>p\<in>set pov. \<forall>ws w.
           witnesses m = Some ws \<and> w \<in> set ws \<longrightarrow> lower w \<noteq> lower p"
  shows "\<not> isAccessible lower (map lower pov) (knownEventIds chars pov) m
         \<and> m \<notin> set (accessibleMemories lower chars pov mems)"
proof -
  have "\<not> isAccessible lower (map lower pov) (knownEventIds chars pov) m"
    unfolding isAccessible_iff using assms by blast
  then show ?thesis by (simp add: accessibleMemories_def)
qed

theorem secret_not_visible_by_involvement_witness:
  "is_secret mem_secret
   \<and> characters_involved mem_secret = Some [''Alice'', ''Bob'']
   \<and> \<not> isAccessible ascii_lower (map ascii_lower [''Alice''])
         (knownEventIds (Some [''Alice'' \<mapsto> alice_state]) [''Alice'']) mem_secret
   \<and> mem_secret \<notin> set (accessibleMemories ascii_lower (Some [''Alice'' \<mapsto> alice_state]) [''Alice'']
                          [mem_witnessed, mem_secret, mem_known])"
proof -
  have s: "is_secret mem_secret"
    by (simp add: mem_secret_def)
  have k: "\<forall>p\<in>set [''Alice'']. \<forall>cm st evs.
             Some [''Alice'' \<mapsto> alice_state] = Some cm \<and> cm p = Some st \<and>
             known_events st = Some evs \<longrightarrow> mem_id mem_secret \<notin> set evs"
    by (auto simp: mem_secret_def alice_state_def)
  have w: "\<forall>p\<in>set [''Alice'']. \<forall>ws w.
             witnesses mem_secret = Some ws \<and> w \<in> set ws \<longrightarrow> ascii_lower w \<noteq> ascii_lower p"
    by (simp add: mem_secret_def ascii_lower_def lower_char_def case_pairs_def)
  show ?thesis
    using secret_not_visible_by_involvement [OF s k w, of "[mem_witnessed, mem_secret, mem_known]"] s
    by (simp add: mem_secret_def)
qed

text \<open>
  C10. The union of known events is built from the states found under the POV names as
  exact keys. When the state map has no key \<open>p\<close> but a key \<open>k\<close> of which
  \<^verbatim>\<open>toLowerCase\<close> gives the same string, the POV name \<open>p\<close> adds nothing to the union: a secret memory with no witness
  listed in the state of \<open>k\<close> is rejected for POV \<open>p\<close> and accepted for POV \<open>k\<close>, while a
  memory witnessed by \<open>k\<close> is accepted for POV \<open>p\<close>.
\<close>

theorem known_events_key_is_case_sensitive:
  assumes "cm p = None"
    and "cm k = Some st"
    and "lower k = lower p"
  shows "knownEventIds (Some cm) (p # pov) = knownEventIds (Some cm) pov
         \<and> knownEventIds (Some cm) [p] = {}
         \<and> (is_secret m \<and> witnesses m = None \<and> known_events st = Some evs \<and> mem_id m \<in> set evs
              \<longrightarrow> \<not> isAccessible lower (map lower [p]) (knownEventIds (Some cm) [p]) m
                  \<and> isAccessible lower (map lower [k]) (knownEventIds (Some cm) [k]) m)
         \<and> (witnesses m' = Some [k]
              \<longrightarrow> isAccessible lower (map lower [p]) (knownEventIds (Some cm) [p]) m')"
proof -
  have a: "add_known_events (Some cm) p acc = acc" for acc
    using assms(1) by (simp add: add_known_events_def)
  have 1: "knownEventIds (Some cm) (p # pov) = knownEventIds (Some cm) pov"
    by (simp add: knownEventIds_def a)
  have 2: "knownEventIds (Some cm) [p] = {}"
    by (simp add: knownEventIds_def a)
  have 3: "\<not> isAccessible lower (map lower [p]) (knownEventIds (Some cm) [p]) m"
    if "is_secret m" "witnesses m = None"
    using that by (simp add: isAccessible_def some_opt_def 2)
  have 4: "isAccessible lower (map lower [k]) (knownEventIds (Some cm) [k]) m"
    if "known_events st = Some evs" "mem_id m \<in> set evs"
    unfolding isAccessible_iff using that assms(2) by auto
  have 5: "isAccessible lower (map lower [p]) (knownEventIds (Some cm) [p]) m'"
    if "witnesses m' = Some [k]"
    unfolding isAccessible_iff using that assms(3) by auto
  from 1 2 3 4 5 show ?thesis by blast
qed

theorem known_events_key_is_case_sensitive_witness:
  "[''alice'' \<mapsto> alice_state] ''Alice'' = None
   \<and> knownEventIds (Some [''alice'' \<mapsto> alice_state]) [''Alice''] = {}
   \<and> \<not> isAccessible ascii_lower (map ascii_lower [''Alice''])
         (knownEventIds (Some [''alice'' \<mapsto> alice_state]) [''Alice'']) mem_known
   \<and> isAccessible ascii_lower (map ascii_lower [''alice''])
         (knownEventIds (Some [''alice'' \<mapsto> alice_state]) [''alice'']) mem_known
   \<and> isAccessible ascii_lower (map ascii_lower [''Alice''])
         (knownEventIds (Some [''alice'' \<mapsto> alice_state]) [''Alice'']) mem_witnessed"
proof -
  have n: "[''alice'' \<mapsto> alice_state] ''Alice'' = None"
    by simp
  have s: "[''alice'' \<mapsto> alice_state] ''alice'' = Some alice_state"
    by simp
  have l: "ascii_lower ''alice'' = ascii_lower ''Alice''"
    by (simp add: ascii_lower_def lower_char_def case_pairs_def)
  have pre: "is_secret mem_known \<and> witnesses mem_known = None \<and>
             known_events alice_state = Some [''e3''] \<and> mem_id mem_known \<in> set [''e3'']"
    by (simp add: mem_known_def alice_state_def)
  have pre': "witnesses mem_witnessed = Some [''alice'']"
    by (simp add: mem_witnessed_def)
  show ?thesis
    using known_events_key_is_case_sensitive [OF n s l, of "[]" mem_known "[''e3'']" mem_witnessed]
      n pre pre'
    by blast
qed

section \<open>Exclusion passes\<close>

lemma recentMessageIds_iff:
  "i \<in> recentMessageIds c \<longleftrightarrow> length c - 10 \<le> i \<and> i < length c"
  by (auto simp: recentMessageIds_def Let_def)

lemma isNonRecent_iff:
  "isNonRecent (recentMessageIds c) m \<longleftrightarrow>
     \<not> (\<exists>ids. message_ids m = Some ids \<and> ids \<noteq> [] \<and>
              (\<forall>i\<in>set ids. length c - 10 \<le> i \<and> i < length c))"
  by (auto simp: isNonRecent_def list_all_iff recentMessageIds_iff split: option.splits)

lemma isNonBatch_iff:
  "isNonBatch lastBatchId m \<longleftrightarrow>
     \<not> (\<exists>b. lastBatchId = Some b \<and> b \<noteq> [] \<and> batch_id m = Some b)"
  by (auto simp: isNonBatch_def truthy_def split: option.splits)

text \<open>
  C5. A memory \<open>m\<close> kept by the POV filter is removed by the two exclusion passes exactly
  when (a) \<open>message_ids\<close> is present, not empty, and each of its elements is one of the
  last ten indices of the chat, or (b) \<open>lastBatchId\<close> is set (present and not the empty
  string, which is what the test \<^verbatim>\<open>lastBatchId && ...\<close> asks) and \<open>batch_id\<close> equals it.
\<close>

theorem exclusion_passes_iff:
  assumes "m \<in> set accessible"
  shows "m \<notin> set (nonBatchMemories lastBatchId (nonRecentMemories c accessible)) \<longleftrightarrow>
           (\<exists>ids. message_ids m = Some ids \<and> ids \<noteq> [] \<and>
                  (\<forall>i\<in>set ids. length c - 10 \<le> i \<and> i < length c))
         \<or> (\<exists>b. lastBatchId = Some b \<and> b \<noteq> [] \<and> batch_id m = Some b)"
  using assms
  unfolding nonBatchMemories_def nonRecentMemories_def set_filter mem_Collect_eq
    isNonRecent_iff isNonBatch_iff
  by blast

text \<open>
  With a chat of one message, the memory drawn from message 0 is removed by the recency
  pass, and the memory with no \<open>message_ids\<close> stays; with the last batch \<^verbatim>\<open>b1\<close> the
  memory of that batch is removed although it has no \<open>message_ids\<close>.
\<close>

theorem exclusion_passes_iff_witness:
  "mem_witnessed \<in> set [mem_witnessed, mem_known]
   \<and> mem_witnessed \<notin> set (nonBatchMemories None (nonRecentMemories chat_A [mem_witnessed, mem_known]))
   \<and> mem_known \<in> set (nonBatchMemories None (nonRecentMemories chat_A [mem_witnessed, mem_known]))
   \<and> mem_secret \<notin> set (nonBatchMemories (Some ''b1'') (nonRecentMemories chat_A [mem_secret]))"
  using exclusion_passes_iff [of mem_witnessed "[mem_witnessed, mem_known]" None chat_A]
    exclusion_passes_iff [of mem_known "[mem_witnessed, mem_known]" None chat_A]
    exclusion_passes_iff [of mem_secret "[mem_secret]" "Some ''b1''" chat_A]
  by (simp add: mem_witnessed_def mem_known_def mem_secret_def chat_A_def)

section \<open>Entry points\<close>

lemmas variant_defs =
  store_recent_def store_hidden_def env_recent_def env_hidden_def env_disabled_def env_select_none_def env_select_throws_def
  env_format_empty_def env_format_throws_def env_sink_throws_def

lemmas entry_defs =
  retrieveAndInjectContext_def retrieve_try_def retrieve_format_def updateInjection_def
  update_body_def update_format_def candidates_update_def memoriesToUse_update_def
  memoriesToUse_retrieve_def clearInjection_def injectContext_def
  call_safeSetExtensionPrompt_def call_showToast_def call_selectRelevantMemories_def
  setStatus_def memories_of_def primaryCharacter_def primaryCharState_def emotionalInfo_def
  headerName_def recentMessages_def recentMessages_update_def

lemma sink_calls_setStatus [simp]: "sink_calls (setStatus s h) = sink_calls h"
  by (simp add: setStatus_def)

lemma selector_calls_setStatus [simp]: "selector_calls (setStatus s h) = selector_calls h"
  by (simp add: setStatus_def)

lemma status_calls_setStatus [simp]: "status_calls (setStatus s h) = status_calls h @ [s]"
  by (simp add: setStatus_def)

lemma selector_calls_injectContext [simp]:
  "selector_calls (snd (injectContext E txt h)) = selector_calls h"
  by (simp add: injectContext_def call_safeSetExtensionPrompt_def split: sum.splits)

lemma selector_calls_clearInjection [simp]:
  "selector_calls (snd (clearInjection E h)) = selector_calls h"
  by (simp add: clearInjection_def call_safeSetExtensionPrompt_def split: sum.splits)

lemma sink_calls_clearInjection [simp]:
  "sink_calls (snd (clearInjection E h)) = sink_calls h @ [[]]"
  by (simp add: clearInjection_def call_safeSetExtensionPrompt_def split: sum.splits)

lemma selector_calls_retrieve_format [simp]:
  "selector_calls (snd (retrieve_format E d ctx pov active relevant h)) = selector_calls h"
  by (simp add: retrieve_format_def Let_def injectContext_def call_safeSetExtensionPrompt_def
      call_showToast_def split: sum.splits)

lemma selector_calls_update_format [simp]:
  "selector_calls (snd (update_format E d ctx pov active relevant h)) = selector_calls h"
  by (simp add: update_format_def Let_def split: sum.splits)

lemma selector_calls_retrieve_try:
  assumes "getActiveCharacters E = Inr active" and "getPOVContext E = Inr pov"
    and "mems \<noteq> []"
  shows "selector_calls (snd (retrieve_try E ctx c d mems h)) =
           selector_calls h @
             [memoriesToUse_retrieve (accessibleMemories (toLowerCase E) (characters d) (povCharacters pov) mems) mems]"
  using assms
  by (simp add: retrieve_try_def Let_def memoriesToUse_retrieve_def
      call_selectRelevantMemories_def split: sum.splits option.splits)

lemma selector_calls_update_body:
  assumes "getActiveCharacters E = Inr active" and "getPOVContext E = Inr pov"
    and "mems \<noteq> []"
  shows "selector_calls (snd (update_body E pending ctx c d mems h)) =
           selector_calls h @ [candidates_update (toLowerCase E) d c pov mems]"
  using assms
  by (simp add: update_body_def Let_def candidates_update_def memoriesToUse_update_def
      call_selectRelevantMemories_def split: sum.splits option.splits)

text \<open>
  C4. On demand, when the store has memories and the POV filter keeps none of them, the
  candidate list is the whole memory list, it is not empty, and it is the list the
  relevance selector is called with.
\<close>

theorem on_demand_fallback_all_memories:
  assumes "enabled (extension_settings E)"
    and "chat (getContext E) = Some c" and "c \<noteq> []"
    and "getOpenVaultData E = Some d" and "memories_of d \<noteq> []"
    and "getActiveCharacters E = Inr active" and "getPOVContext E = Inr pov"
    and "accessibleMemories (toLowerCase E) (characters d) (povCharacters pov) (memories_of d) = []"
  shows "memoriesToUse_retrieve
           (accessibleMemories (toLowerCase E) (characters d) (povCharacters pov) (memories_of d)) (memories_of d)
           = memories_of d
         \<and> memoriesToUse_retrieve
             (accessibleMemories (toLowerCase E) (characters d) (povCharacters pov) (memories_of d)) (memories_of d)
           \<noteq> []
         \<and> selector_calls (snd (retrieveAndInjectContext E h)) = selector_calls h @ [memories_of d]"
proof -
  have m: "memoriesToUse_retrieve
             (accessibleMemories (toLowerCase E) (characters d) (povCharacters pov) (memories_of d)) (memories_of d)
           = memories_of d"
    using assms(5,8) by (simp add: memoriesToUse_retrieve_def)
  have "selector_calls (snd (retrieveAndInjectContext E h)) =
          selector_calls (snd (retrieve_try E (getContext E) c d (memories_of d)
                                 (setStatus Retrieving h)))"
    using assms(1-5)
    by (simp add: retrieveAndInjectContext_def Let_def split: prod.splits sum.splits)
  also have "\<dots> = selector_calls h @ [memories_of d]"
    using selector_calls_retrieve_try [OF assms(6,7,5)] m by simp
  finally show ?thesis using m assms(5) by simp
qed

theorem on_demand_fallback_all_memories_witness:
  "accessibleMemories (toLowerCase env_hidden) (characters store_hidden) (povCharacters pov_A)
     (memories_of store_hidden) = []
   \<and> memories_of store_hidden = [mem_secret]
   \<and> selector_calls (snd (retrieveAndInjectContext env_hidden host_A)) = [[mem_secret]]"
proof -
  have d: "getOpenVaultData env_hidden = Some store_hidden"
    by (simp add: env_hidden_def env_A_def)
  have ms: "memories_of store_hidden = [mem_secret]"
    by (simp add: memories_of_def store_hidden_def)
  have acc: "accessibleMemories (toLowerCase env_hidden) (characters store_hidden) (povCharacters pov_A)
               (memories_of store_hidden) = []"
    unfolding ms by (simp add: filter_defs session_defs variant_defs)
  have "selector_calls (snd (retrieveAndInjectContext env_hidden host_A)) =
          selector_calls host_A @ [memories_of store_hidden]"
    using on_demand_fallback_all_memories [of env_hidden chat_A _ _ pov_A host_A, OF _ _ _ d _ _ _ acc]
    by (simp add: env_hidden_def env_A_def chat_A_def ms)
  then show ?thesis using acc ms by (simp add: host_A_def)
qed

text \<open>
  C3 as the code has it. In the automatic update, when the POV filter keeps some memory
  and the recency and batch passes remove all that it kept, the relevance selector is
  called with the whole memory list of the store.
\<close>

theorem update_fallback_all_memories:
  assumes "enabled (extension_settings E)" and "automaticMode (extension_settings E)"
    and "chat (getContext E) = Some c" and "c \<noteq> []"
    and "getOpenVaultData E = Some d"
    and "getActiveCharacters E = Inr active" and "getPOVContext E = Inr pov"
    and "accessibleMemories (toLowerCase E) (characters d) (povCharacters pov) (memories_of d) \<noteq> []"
    and "nonBatchMemories (last_batch_id d)
           (nonRecentMemories c
              (accessibleMemories (toLowerCase E) (characters d) (povCharacters pov) (memories_of d))) = []"
  shows "selector_calls (snd (updateInjection E pending h)) = selector_calls h @ [memories_of d]"
proof -
  have ne: "memories_of d \<noteq> []"
    using assms(8) by (auto simp: accessibleMemories_def)
  have c: "candidates_update (toLowerCase E) d c pov (memories_of d) = memories_of d"
    using assms(9) ne by (simp add: candidates_update_def memoriesToUse_update_def)
  have "selector_calls (snd (updateInjection E pending h)) =
          selector_calls (snd (update_body E pending (getContext E) c d (memories_of d) h))"
    using assms(1-5) ne by (simp add: updateInjection_def Let_def)
  also have "\<dots> = selector_calls h @ [memories_of d]"
    using selector_calls_update_body [OF assms(6,7) ne] c by simp
  finally show ?thesis .
qed

theorem update_fallback_all_memories_witness:
  "accessibleMemories (toLowerCase env_recent) (characters store_recent) (povCharacters pov_A)
     (memories_of store_recent) = [mem_witnessed]
   \<and> nonBatchMemories (last_batch_id store_recent) (nonRecentMemories chat_A [mem_witnessed]) = []
   \<and> selector_calls (snd (updateInjection env_recent [] host_A)) = [memories_of store_recent]"
proof -
  have d: "getOpenVaultData env_recent = Some store_recent"
    by (simp add: env_recent_def env_A_def)
  have ms: "memories_of store_recent = [mem_witnessed, mem_secret]"
    by (simp add: memories_of_def store_recent_def)
  have acc: "accessibleMemories (toLowerCase env_recent) (characters store_recent) (povCharacters pov_A)
               (memories_of store_recent) = [mem_witnessed]"
    unfolding ms by (simp add: filter_defs session_defs variant_defs)
  have ne: "accessibleMemories (toLowerCase env_recent) (characters store_recent) (povCharacters pov_A)
              (memories_of store_recent) \<noteq> []"
    unfolding acc by simp
  have ex: "nonBatchMemories (last_batch_id store_recent)
              (nonRecentMemories chat_A [mem_witnessed]) = []"
    by (simp add: filter_defs session_defs store_recent_def)
  have ex': "nonBatchMemories (last_batch_id store_recent)
               (nonRecentMemories chat_A
                  (accessibleMemories (toLowerCase env_recent) (characters store_recent) (povCharacters pov_A)
                     (memories_of store_recent))) = []"
    unfolding acc by (rule ex)
  have "selector_calls (snd (updateInjection env_recent [] host_A)) =
          selector_calls host_A @ [memories_of store_recent]"
    using update_fallback_all_memories [of env_recent chat_A store_recent _ pov_A "[]" host_A,
        OF _ _ _ _ d _ _ ne ex']
    by (simp add: env_recent_def env_A_def chat_A_def)
  then show ?thesis using acc ex by (simp add: host_A_def)
qed

text \<open>
  C3 as the specification states it fails: in the session \<open>env_recent\<close> the POV filter keeps one
  memory, the recency pass removes it, and the selector is called with both memories
  of the store, the secret one that the POV filter rejected among them.
\<close>

theorem update_fallback_accessible_counterexample:
  "accessibleMemories (toLowerCase env_recent) (characters store_recent) (povCharacters pov_A)
     (memories_of store_recent) = [mem_witnessed]
   \<and> nonBatchMemories (last_batch_id store_recent) (nonRecentMemories chat_A [mem_witnessed]) = []
   \<and> selector_calls (snd (updateInjection env_recent [] host_A)) = [[mem_witnessed, mem_secret]]
   \<and> selector_calls (snd (updateInjection env_recent [] host_A)) \<noteq>
       [accessibleMemories (toLowerCase env_recent) (characters store_recent) (povCharacters pov_A)
          (memories_of store_recent)]"
proof -
  have ms: "memories_of store_recent = [mem_witnessed, mem_secret]"
    by (simp add: memories_of_def store_recent_def)
  have acc: "accessibleMemories (toLowerCase env_recent) (characters store_recent) (povCharacters pov_A)
               (memories_of store_recent) = [mem_witnessed]"
    unfolding ms by (simp add: filter_defs session_defs variant_defs)
  have ex: "nonBatchMemories (last_batch_id store_recent)
              (nonRecentMemories chat_A [mem_witnessed]) = []"
    by (simp add: filter_defs session_defs store_recent_def)
  have run: "selector_calls (snd (updateInjection env_recent [] host_A))
               = [[mem_witnessed, mem_secret]]"
    by (simp add: entry_defs filter_defs session_defs variant_defs)
  show ?thesis
    unfolding acc run using acc ex by simp
qed

text \<open>
  C6. Every short-circuit exit of the automatic update is to call the injection sink with
  the empty text. The exit on an empty formatter output does not: in the session
  \<open>env_format_empty\<close> the selector returns a memory and the formatter returns the empty
  text, and the automatic update returns without any call of the sink, so the text
  injected earlier stays.
\<close>

theorem update_empty_format_keeps_injection:
  "updateInjection env_format_empty [] host_A =
     (Inr (), host_A\<lparr>selector_calls := [[mem_known]]\<rparr>)
   \<and> sink_calls (snd (updateInjection env_format_empty [] host_A)) = [''[Scene memories] earlier'']"
  by (simp add: entry_defs filter_defs session_defs variant_defs)

text \<open>So the sink has not been called with the empty text at that exit.\<close>

theorem update_empty_format_keeps_injection_witness:
  "sink_calls (snd (updateInjection env_format_empty [] host_A)) \<noteq> sink_calls host_A @ [[]]"
  using update_empty_format_keeps_injection by (simp add: host_A_def)

text \<open>
  The other exits of the automatic update (settings, empty chat, no store, no memories,
  no candidates, nothing selected) each call the sink once, with the empty text.
\<close>

lemma update_short_circuit_clears:
  assumes "\<not> enabled (extension_settings E) \<or> \<not> automaticMode (extension_settings E)
           \<or> chat (getContext E) = None \<or> chat (getContext E) = Some []
           \<or> getOpenVaultData E = None
           \<or> (\<exists>d. getOpenVaultData E = Some d \<and> memories_of d = [])
           \<or> (\<exists>c d active pov.
                 chat (getContext E) = Some c \<and> getOpenVaultData E = Some d \<and>
                 getActiveCharacters E = Inr active \<and> getPOVContext E = Inr pov \<and>
                 (candidates_update (toLowerCase E) d c pov (memories_of d) = []
                  \<or> selectRelevantMemories E (candidates_update (toLowerCase E) d c pov (memories_of d))
                       (recentMessages_update c pending) (primaryCharacter pov (getContext E))
                       active (maxMemoriesPerRetrieval (extension_settings E))
                     \<in> {Inr None, Inr (Some [])}))"
  shows "sink_calls (snd (updateInjection E pending h)) = sink_calls h @ [[]]"
  using assms
  by (auto simp: updateInjection_def update_body_def Let_def call_selectRelevantMemories_def
      split: option.splits sum.splits)

text \<open>
  C9. On demand, at each exit before formatting (disabled, no chat or an empty one, no
  store, no memories, no candidates, nothing selected) the call returns null and the
  calls of the injection sink are those made before the call: the sink is not invoked.
\<close>

theorem on_demand_short_circuit_keeps_sink:
  assumes "\<not> enabled (extension_settings E)
           \<or> chat (getContext E) = None \<or> chat (getContext E) = Some []
           \<or> getOpenVaultData E = None
           \<or> (\<exists>d. getOpenVaultData E = Some d \<and> memories_of d = [])
           \<or> (\<exists>c d active pov.
                 chat (getContext E) = Some c \<and> getOpenVaultData E = Some d \<and>
                 getActiveCharacters E = Inr active \<and> getPOVContext E = Inr pov \<and>
                 (memoriesToUse_retrieve
                    (accessibleMemories (toLowerCase E) (characters d) (povCharacters pov) (memories_of d))
                    (memories_of d) = []
                  \<or> selectRelevantMemories E
                       (memoriesToUse_retrieve
                          (accessibleMemories (toLowerCase E) (characters d) (povCharacters pov) (memories_of d))
                          (memories_of d))
                       (recentMessages c) (primaryCharacter pov (getContext E))
                       active (maxMemoriesPerRetrieval (extension_settings E))
                     \<in> {Inr None, Inr (Some [])}))"
  shows "fst (retrieveAndInjectContext E h) = Inr None
         \<and> sink_calls (snd (retrieveAndInjectContext E h)) = sink_calls h"
  using assms
  by (auto simp: retrieveAndInjectContext_def retrieve_try_def Let_def
      call_selectRelevantMemories_def split: option.splits sum.splits)

theorem on_demand_short_circuit_keeps_sink_witness:
  "\<not> enabled (extension_settings env_disabled)
   \<and> retrieveAndInjectContext env_disabled host_A = (Inr None, host_A)
   \<and> fst (retrieveAndInjectContext env_select_none host_A) = Inr None
   \<and> sink_calls (snd (retrieveAndInjectContext env_select_none host_A)) = sink_calls host_A"
proof -
  have a: "\<not> enabled (extension_settings env_disabled)"
    by (simp add: env_disabled_def env_A_def)
  have b: "retrieveAndInjectContext env_disabled host_A = (Inr None, host_A)"
    using a by (simp add: retrieveAndInjectContext_def)
  have c: "chat (getContext env_select_none) = Some chat_A
           \<and> getOpenVaultData env_select_none = Some store_A
           \<and> getActiveCharacters env_select_none = Inr [''Alice'', ''Bob'']
           \<and> getPOVContext env_select_none = Inr pov_A
           \<and> selectRelevantMemories env_select_none
               (memoriesToUse_retrieve
                  (accessibleMemories (toLowerCase env_select_none) (characters store_A) (povCharacters pov_A) (memories_of store_A))
                  (memories_of store_A))
               (recentMessages chat_A) (primaryCharacter pov_A (getContext env_select_none))
               [''Alice'', ''Bob''] (maxMemoriesPerRetrieval (extension_settings env_select_none))
             \<in> {Inr None, Inr (Some [])}"
    by (simp add: env_select_none_def env_A_def)
  have d: "fst (retrieveAndInjectContext env_select_none host_A) = Inr None
           \<and> sink_calls (snd (retrieveAndInjectContext env_select_none host_A)) = sink_calls host_A"
    by (rule on_demand_short_circuit_keeps_sink) (use c in blast)
  from a b d show ?thesis
    using on_demand_short_circuit_keeps_sink [of env_disabled host_A] by simp
qed

text \<open>
  C7. On demand, once the four guards are passed, whichever stage of the \<^verbatim>\<open>try\<close> block
  throws an exception \<open>e\<close> when the run reaches it (the active-characters accessor, the
  POV resolver, the relevance selector on the candidates, the relationship lookup, the
  formatter on the selected memories, the injection sink on the formatted text, or the
  toast after the injection), the call returns null and its last \<^verbatim>\<open>setStatus\<close> is
  \<^verbatim>\<open>'error'\<close>: the exception is caught and does not reach the caller. The handler itself
  (\<^verbatim>\<open>console.error\<close>, \<^verbatim>\<open>setStatus\<close>) is taken to return.
\<close>

theorem on_demand_catches_exceptions:
  assumes "enabled (extension_settings E)"
    and "chat (getContext E) = Some c" and "c \<noteq> []"
    and "getOpenVaultData E = Some d" and "memories_of d \<noteq> []"
    and "getActiveCharacters E = Inl e
         \<or> (\<exists>active. getActiveCharacters E = Inr active \<and>
              (getPOVContext E = Inl e
               \<or> (\<exists>pov. getPOVContext E = Inr pov \<and>
                    (selectRelevantMemories E
                       (memoriesToUse_retrieve
                          (accessibleMemories (toLowerCase E) (characters d) (povCharacters pov)
                             (memories_of d))
                          (memories_of d))
                       (recentMessages c) (primaryCharacter pov (getContext E)) active
                       (maxMemoriesPerRetrieval (extension_settings E)) = Inl e
                     \<or> (\<exists>relevant.
                          selectRelevantMemories E
                            (memoriesToUse_retrieve
                               (accessibleMemories (toLowerCase E) (characters d) (povCharacters pov)
                                  (memories_of d))
                               (memories_of d))
                            (recentMessages c) (primaryCharacter pov (getContext E)) active
                            (maxMemoriesPerRetrieval (extension_settings E)) = Inr (Some relevant) \<and>
                          relevant \<noteq> [] \<and>
                          (getRelationshipContext E d (primaryCharacter pov (getContext E)) active
                             = Inl e
                           \<or> (\<exists>rc.
                                getRelationshipContext E d (primaryCharacter pov (getContext E)) active
                                  = Inr rc \<and>
                                (formatContextForInjection E relevant rc
                                   (emotionalInfo
                                      (primaryCharState d (primaryCharacter pov (getContext E))))
                                   (headerName pov (primaryCharacter pov (getContext E)))
                                   (tokenBudget (extension_settings E)) = Inl e
                                 \<or> (\<exists>txt.
                                      formatContextForInjection E relevant rc
                                        (emotionalInfo
                                           (primaryCharState d (primaryCharacter pov (getContext E))))
                                        (headerName pov (primaryCharacter pov (getContext E)))
                                        (tokenBudget (extension_settings E)) = Inr txt \<and>
                                      txt \<noteq> [] \<and>
                                      (safeSetExtensionPrompt E txt = Inl e
                                       \<or> (\<exists>ok. safeSetExtensionPrompt E txt = Inr ok \<and>
                                                showToast E ''success'' (length relevant)
                                                  = Inl e)))))))))))"
  shows "fst (retrieveAndInjectContext E h) = Inr None
         \<and> last (status_calls (snd (retrieveAndInjectContext E h))) = Error"
proof -
  have ne: "memoriesToUse_retrieve acc (memories_of d) \<noteq> []" for acc
    using assms(5) by (simp add: memoriesToUse_retrieve_def)
  have "\<exists>h1. retrieve_try E (getContext E) c d (memories_of d) (setStatus Retrieving h)
               = (Inl e, h1)"
    using assms(6) ne
    by (auto simp: retrieve_try_def retrieve_format_def Let_def injectContext_def
        call_selectRelevantMemories_def call_safeSetExtensionPrompt_def call_showToast_def)
  then obtain h1 where
    "retrieve_try E (getContext E) c d (memories_of d) (setStatus Retrieving h) = (Inl e, h1)"
    by blast
  then have "retrieveAndInjectContext E h = (Inr None, setStatus Error h1)"
    using assms(1-5) by (simp add: retrieveAndInjectContext_def Let_def)
  then show ?thesis by simp
qed

text \<open>
  The selector, the formatter and the injection sink throwing, each in the session of
  section \<open>A concrete session\<close>: null and status \<^verbatim>\<open>'error'\<close> every time.
\<close>

theorem on_demand_catches_exceptions_witness:
  "fst (retrieveAndInjectContext env_select_throws host_A) = Inr None
   \<and> last (status_calls (snd (retrieveAndInjectContext env_select_throws host_A))) = Error
   \<and> fst (retrieveAndInjectContext env_format_throws host_A) = Inr None
   \<and> last (status_calls (snd (retrieveAndInjectContext env_format_throws host_A))) = Error
   \<and> fst (retrieveAndInjectContext env_sink_throws host_A) = Inr None
   \<and> last (status_calls (snd (retrieveAndInjectContext env_sink_throws host_A))) = Error"
proof -
  have ms: "memories_of store_A \<noteq> []" and c: "chat_A \<noteq> []"
    by (simp_all add: memories_of_def store_A_def chat_A_def)
  have s: "fst (retrieveAndInjectContext env_select_throws host_A) = Inr None
           \<and> last (status_calls (snd (retrieveAndInjectContext env_select_throws host_A))) = Error"
    by (rule on_demand_catches_exceptions [where e = "''selector failed''", OF _ _ c _ ms])
      (simp_all add: env_select_throws_def env_A_def)
  have f: "fst (retrieveAndInjectContext env_format_throws host_A) = Inr None
           \<and> last (status_calls (snd (retrieveAndInjectContext env_format_throws host_A))) = Error"
    by (rule on_demand_catches_exceptions [where e = "''formatter failed''", OF _ _ c _ ms])
      (simp_all add: env_format_throws_def env_A_def filter_defs session_defs
        memoriesToUse_retrieve_def memories_of_def)
  have k: "fst (retrieveAndInjectContext env_sink_throws host_A) = Inr None
           \<and> last (status_calls (snd (retrieveAndInjectContext env_sink_throws host_A))) = Error"
    by (rule on_demand_catches_exceptions [where e = "''sink failed''", OF _ _ c _ ms])
      (simp_all add: env_sink_throws_def env_A_def filter_defs session_defs
        memoriesToUse_retrieve_def memories_of_def)
  from s f k show ?thesis by blast
qed

text \<open>
  The automatic update has no handler: an exception of the stage that the run reaches
  (the same stages, without the toast) ends the call.
\<close>

lemma update_propagates_exceptions:
  assumes "enabled (extension_settings E)" and "automaticMode (extension_settings E)"
    and "chat (getContext E) = Some c" and "c \<noteq> []"
    and "getOpenVaultData E = Some d" and "memories_of d \<noteq> []"
    and "getActiveCharacters E = Inl e
         \<or> (\<exists>active. getActiveCharacters E = Inr active \<and>
              (getPOVContext E = Inl e
               \<or> (\<exists>pov. getPOVContext E = Inr pov \<and>
                    (selectRelevantMemories E
                       (candidates_update (toLowerCase E) d c pov (memories_of d))
                       (recentMessages_update c pending) (primaryCharacter pov (getContext E))
                       active (maxMemoriesPerRetrieval (extension_settings E)) = Inl e
                     \<or> (\<exists>relevant.
                          selectRelevantMemories E
                            (candidates_update (toLowerCase E) d c pov (memories_of d))
                            (recentMessages_update c pending)
                            (primaryCharacter pov (getContext E)) active
                            (maxMemoriesPerRetrieval (extension_settings E)) = Inr (Some relevant) \<and>
                          relevant \<noteq> [] \<and>
                          (getRelationshipContext E d (primaryCharacter pov (getContext E)) active
                             = Inl e
                           \<or> (\<exists>rc.
                                getRelationshipContext E d (primaryCharacter pov (getContext E)) active
                                  = Inr rc \<and>
                                (formatContextForInjection E relevant rc
                                   (emotionalInfo
                                      (primaryCharState d (primaryCharacter pov (getContext E))))
                                   (headerName pov (primaryCharacter pov (getContext E)))
                                   (tokenBudget (extension_settings E)) = Inl e
                                 \<or> (\<exists>txt.
                                      formatContextForInjection E relevant rc
                                        (emotionalInfo
                                           (primaryCharState d (primaryCharacter pov (getContext E))))
                                        (headerName pov (primaryCharacter pov (getContext E)))
                                        (tokenBudget (extension_settings E)) = Inr txt \<and>
                                      txt \<noteq> [] \<and>
                                      safeSetExtensionPrompt E txt = Inl e)))))))))"
  shows "fst (updateInjection E pending h) = Inl e"
proof -
  have ne: "candidates_update (toLowerCase E) d c pov (memories_of d) \<noteq> []" for pov
    using assms(6) by (simp add: candidates_update_def memoriesToUse_update_def Let_def)
  have "fst (update_body E pending (getContext E) c d (memories_of d) h) = Inl e"
    using assms(7) ne
    by (auto simp: update_body_def update_format_def Let_def injectContext_def
        call_selectRelevantMemories_def call_safeSetExtensionPrompt_def)
  then show ?thesis
    using assms(1-6) by (simp add: updateInjection_def Let_def)
qed

text \<open>
  C8. Both entry points are to end without an exception reaching the caller. The
  automatic update does not: in the session \<open>env_format_throws\<close>, where the formatter
  throws, the call ends in that exception, the earlier injection neither replaced nor
  cleared, while the on-demand retrieval in the same session returns null.
\<close>

theorem update_throws_to_caller:
  "updateInjection env_format_throws [] host_A =
     (Inl ''formatter failed'', host_A\<lparr>selector_calls := [[mem_known]]\<rparr>)
   \<and> fst (retrieveAndInjectContext env_format_throws host_A) = Inr None"
  by (simp add: entry_defs filter_defs session_defs variant_defs)

text \<open>So the automatic update has not returned normally there.\<close>

theorem update_throws_to_caller_witness:
  "fst (updateInjection env_format_throws [] host_A) \<noteq> Inr ()"
  using update_throws_to_caller by simp

end
